theory Spec2Isabelle
  imports Main "HOL-Library.Word" "HOL-Library.AList"
begin

section \<open>JavaScript values and objects\<close>

text \<open>
  A JavaScript string is a sequence of UTF-16 code units. Property names are written as
  HOL strings; the text a user types, the timestamps and the messages are code-unit lists.
\<close>

type_synonym jsstring = "16 word list"

definition ustr :: "string \<Rightarrow> jsstring" where
  "ustr cs = map of_char cs"

text \<open>
  The values that occur in a note: \<open>undefined\<close> (a missing property), \<open>null\<close>, a number
  (an integer key of the table) and a string. On these values \<open>===\<close> is HOL equality.
\<close>

datatype jsval = Undefined | Null | Num int | Str jsstring

text \<open>What \<open>if (v)\<close>, \<open>!v\<close>, \<open>a || b\<close> and \<open>a && b\<close> test.\<close>

fun truthy :: "jsval \<Rightarrow> bool" where
  "truthy Undefined = False"
| "truthy Null = False"
| "truthy (Num n) = (n \<noteq> 0)"
| "truthy (Str s) = (s \<noteq> [])"

definition js_or :: "jsval \<Rightarrow> jsval \<Rightarrow> jsval" where
  "js_or a b = (if truthy a then a else b)"

text \<open>
  An object literal is a list of properties in insertion order. \<open>o.k\<close> reads a property
  (\<open>undefined\<close> when it is absent); \<open>{...o, k: v}\<close> is \<open>AList.update k v o\<close>, which
  overwrites \<open>k\<close> in place or appends it. No code of the application assigns to a property
  of an existing object, so the copy made by \<open>{...o}\<close> is \<open>o\<close> itself.
\<close>

type_synonym obj = "(string \<times> jsval) list"

definition jsget :: "obj \<Rightarrow> string \<Rightarrow> jsval" where
  "jsget ob k = (case map_of ob k of None \<Rightarrow> Undefined | Some v \<Rightarrow> v)"

datatype js_error = TypeError | Error string

text \<open>
  \<open>String.prototype.trim\<close> removes from both ends the code units that ECMAScript calls
  white space or line terminators: tab, LF, VT, FF, CR, space, NBSP, U+1680,
  U+2000 to U+200A, U+2028, U+2029, U+202F, U+205F, U+3000 and U+FEFF.
\<close>

definition js_whitespace :: "16 word \<Rightarrow> bool" where
  "js_whitespace c \<longleftrightarrow>
     (0x9 \<le> c \<and> c \<le> 0xD) \<or> c = 0x20 \<or> c = 0xA0 \<or> c = 0x1680 \<or>
     (0x2000 \<le> c \<and> c \<le> 0x200A) \<or> c = 0x2028 \<or> c = 0x2029 \<or> c = 0x202F \<or>
     c = 0x205F \<or> c = 0x3000 \<or> c = 0xFEFF"

definition trim :: "jsstring \<Rightarrow> jsstring" where
  "trim s = rev (dropWhile js_whitespace (rev (dropWhile js_whitespace s)))"

text \<open>
  \<open>v.trim()\<close> on a property value: a \<open>TypeError\<close> when \<open>v\<close> is \<open>undefined\<close> or \<open>null\<close>
  (no property can be read) or a number (it has no \<open>trim\<close>).
\<close>

definition js_trim :: "jsval \<Rightarrow> js_error + jsval" where
  "js_trim v = (case v of Str s \<Rightarrow> Inr (Str (trim s)) | _ \<Rightarrow> Inl TypeError)"

section \<open>The remote store as seen by the client\<close>

text \<open>
  The queries built in \<open>App.js\<close>, with the arguments the code passes:
  \<open>from('notes').select('*').order(col, {ascending: a})\<close>,
  \<open>from('notes').insert(rows).select()\<close>,
  \<open>from('notes').update(fields).eq(col, v).select()\<close> and
  \<open>from('notes').delete().eq(col, v)\<close>.
\<close>

datatype request =
    Select_order string bool
  | Insert_select "obj list"
  | Update_eq_select obj string jsval
  | Delete_eq string jsval

text \<open>
  What an awaited query resolves to, \<open>{ data, error }\<close>: \<open>data\<close> is \<open>null\<close> or an array of
  rows, \<open>error\<close> is \<open>null\<close> or an object of which only \<open>message\<close> is read.
\<close>

record response =
  data :: "obj list option"
  error :: "jsstring option"

text \<open>
  The effects of the client outside its view state: the queries issued, the
  \<open>alert\<close> boxes raised, and the exceptions nobody catches.
\<close>

record effects =
  requests :: "request list"
  alerts :: "jsstring list"
  uncaught :: "js_error list"

definition issue :: "request \<Rightarrow> effects \<Rightarrow> effects" where
  "issue r fx = fx\<lparr>requests := requests fx @ [r]\<rparr>"

definition alert :: "jsstring \<Rightarrow> effects \<Rightarrow> effects" where
  "alert m fx = fx\<lparr>alerts := alerts fx @ [m]\<rparr>"

definition throw :: "js_error \<Rightarrow> effects \<Rightarrow> effects" where
  "throw e fx = fx\<lparr>uncaught := uncaught fx @ [e]\<rparr>"

text \<open>\<open>data && data[0]\<close>: falsy for \<open>null\<close> and for the empty array, else the first row.\<close>

definition first_row :: "obj list option \<Rightarrow> obj option" where
  "first_row d = (case d of None \<Rightarrow> None | Some [] \<Rightarrow> None | Some (r # _) \<Rightarrow> Some r)"

section \<open>The four repository operations\<close>

text \<open>
  Each operation takes the clock reading \<open>now\<close> (\<open>new Date().toISOString()\<close>) where it
  reads the clock, and the response \<open>resp\<close> its query resolves to.
\<close>

definition createNote :: "jsstring \<Rightarrow> response \<Rightarrow> effects \<Rightarrow> obj option \<times> effects" where
  "createNote now resp fx =
    (let fx1 = issue (Insert_select
                 [[(''title'', Str []), (''content'', Str []),
                   (''created_at'', Str now), (''updated_at'', Str now)]]) fx
     in case error resp of
          Some msg \<Rightarrow> (None, alert (ustr ''Failed to create note: '' @ msg) fx1)
        | None \<Rightarrow> (first_row (data resp), fx1))"

definition updateNote :: "jsstring \<Rightarrow> response \<Rightarrow> obj \<Rightarrow> effects \<Rightarrow> obj option \<times> effects" where
  "updateNote now resp note fx =
    (let fx1 = issue (Update_eq_select
                 [(''title'', jsget note ''title''), (''content'', jsget note ''content''),
                  (''updated_at'', Str now)]
                 ''id'' (jsget note ''id'')) fx
     in case error resp of
          Some msg \<Rightarrow> (None, alert (ustr ''Failed to update note: '' @ msg) fx1)
        | None \<Rightarrow> (first_row (data resp), fx1))"

definition deleteNote :: "response \<Rightarrow> jsval \<Rightarrow> effects \<Rightarrow> bool \<times> effects" where
  "deleteNote resp i fx =
    (let fx1 = issue (Delete_eq ''id'' i) fx
     in case error resp of
          Some msg \<Rightarrow> (False, alert (ustr ''Failed to delete note: '' @ msg) fx1)
        | None \<Rightarrow> (True, fx1))"

section \<open>The view state and its handlers\<close>

record state =
  notes_list :: "obj list"
  selectedId :: jsval
  editingNote :: "obj option"
  loading :: bool
  saving :: bool

definition App_init :: state where
  "App_init = \<lparr>notes_list = [], selectedId = Null, editingNote = None,
               loading = True, saving = False\<rparr>"

text \<open>
  An asynchronous handler runs up to its \<open>await\<close>, where the view shows the pending state,
  and continues when the response arrives.
\<close>

definition handleCreate_pending :: "state \<Rightarrow> state" where
  "handleCreate_pending s = s\<lparr>saving := True\<rparr>"

definition handleCreate :: "jsstring \<Rightarrow> response \<Rightarrow> state \<times> effects \<Rightarrow> state \<times> effects" where
  "handleCreate now resp = (\<lambda>(s, fx).
    (let s1 = handleCreate_pending s;
         (note, fx1) = createNote now resp fx;
         s2 = s1\<lparr>saving := False\<rparr>
     in case note of
          None \<Rightarrow> (s2, fx1)
        | Some n \<Rightarrow>
            (s2\<lparr>notes_list := n # notes_list s2, selectedId := jsget n ''id'', editingNote := Some n\<rparr>,
             fx1)))"

text \<open>
  \<open>loadNotes\<close> is given the two setters of the component; here it acts on the state.
  \<open>data || []\<close> replaces only \<open>null\<close>, since every array is truthy.
\<close>

definition loadNotes_pending :: "state \<Rightarrow> state" where
  "loadNotes_pending s = s\<lparr>loading := True\<rparr>"

definition loadNotes :: "response \<Rightarrow> state \<times> effects \<Rightarrow> state \<times> effects" where
  "loadNotes resp = (\<lambda>(s, fx).
    (let s1 = loadNotes_pending s;
         fx1 = issue (Select_order ''updated_at'' False) fx;
         s2 = (case error resp of
                 Some msg \<Rightarrow> s1\<lparr>notes_list := []\<rparr>
               | None \<Rightarrow> s1\<lparr>notes_list := (case data resp of None \<Rightarrow> [] | Some rows \<Rightarrow> rows)\<rparr>)
     in (s2\<lparr>loading := False\<rparr>, fx1)))"

definition handleSelect :: "jsval \<Rightarrow> state \<Rightarrow> state" where
  "handleSelect i s =
     s\<lparr>selectedId := i, editingNote := find (\<lambda>n. jsget n ''id'' = i) (notes_list s)\<rparr>"

text \<open>
  \<open>handleChange\<close> reads \<open>e.target.name\<close> and \<open>e.target.value\<close> and the clock. Spreading
  \<open>null\<close> adds no property.
\<close>

definition handleChange :: "string \<Rightarrow> jsstring \<Rightarrow> jsstring \<Rightarrow> state \<Rightarrow> state" where
  "handleChange name val now s =
     s\<lparr>editingNote := Some
         (AList.update ''updated_at'' (Str now)
           (AList.update name (Str val)
             (case editingNote s of None \<Rightarrow> [] | Some en \<Rightarrow> en)))\<rparr>"

definition handleSave_pending :: "state \<Rightarrow> state" where
  "handleSave_pending s = s\<lparr>saving := True\<rparr>"

definition handleSave :: "jsstring \<Rightarrow> response \<Rightarrow> state \<times> effects \<Rightarrow> state \<times> effects" where
  "handleSave now resp = (\<lambda>(s, fx).
    (case editingNote s of
       None \<Rightarrow> (s, fx)
     | Some en \<Rightarrow>
        (let s1 = handleSave_pending s in
         case js_trim (jsget en ''title'') of
           Inl e \<Rightarrow> (s1, throw e fx)
         | Inr t \<Rightarrow>
        (case js_trim (jsget en ''content'') of
           Inl e \<Rightarrow> (s1, throw e fx)
         | Inr c \<Rightarrow>
        (let trimmed = AList.update ''content'' c (AList.update ''title'' t en);
             (updated, fx1) = updateNote now resp trimmed fx;
             s2 = s1\<lparr>saving := False\<rparr>
         in case updated of
              None \<Rightarrow> (s2, fx1)
            | Some u \<Rightarrow>
                (s2\<lparr>notes_list :=
                      map (\<lambda>n. if jsget n ''id'' = jsget trimmed ''id'' then u else n)
                        (notes_list s2),
                    editingNote := Some u\<rparr>,
                 fx1))))))"

definition handleDelete_pending :: "state \<Rightarrow> state" where
  "handleDelete_pending s = s\<lparr>saving := True\<rparr>"

definition handleDelete :: "response \<Rightarrow> state \<times> effects \<Rightarrow> state \<times> effects" where
  "handleDelete resp = (\<lambda>(s, fx).
    (if \<not> truthy (selectedId s) then (s, fx)
     else
       (let s1 = handleDelete_pending s;
            (ok, fx1) = deleteNote resp (selectedId s) fx;
            s2 = s1\<lparr>saving := False\<rparr>
        in if ok
           then (s2\<lparr>notes_list := filter (\<lambda>n. jsget n ''id'' \<noteq> selectedId s) (notes_list s2),
                    editingNote := None, selectedId := Null\<rparr>,
                 fx1)
           else (s2, fx1))))"

text \<open>
  The editor form is rendered when \<open>editingNote && selectedId\<close>; inside it the
  \<open>Last updated\<close> line is rendered when \<open>editingNote.updated\<close> is truthy, from that value.
\<close>

definition form_shown :: "state \<Rightarrow> bool" where
  "form_shown s \<longleftrightarrow> editingNote s \<noteq> None \<and> truthy (selectedId s)"

definition last_updated_shown :: "state \<Rightarrow> jsval option" where
  "last_updated_shown s =
     (case editingNote s of
        None \<Rightarrow> None
      | Some en \<Rightarrow>
          if truthy (selectedId s) \<and> truthy (jsget en ''updated'')
          then Some (jsget en ''updated'') else None)"

subsection \<open>Runs of the component\<close>

text \<open>
  What can happen to the mounted component: the effect of mounting (\<open>loadNotes\<close>), a click
  on a list entry, on \<open>+ New Note\<close>, a change of an input (its name, its new value), a
  submit of the form and a click on \<open>Delete\<close>. Each carries the clock reading and the
  response its handler meets.
\<close>

datatype event =
    Mounted response
  | Clicked jsval
  | NewNote jsstring response
  | Typed string jsstring jsstring
  | Submitted jsstring response
  | DeleteClicked response

fun dispatch :: "event \<Rightarrow> state \<times> effects \<Rightarrow> state \<times> effects" where
  "dispatch (Mounted resp) c = loadNotes resp c"
| "dispatch (Clicked i) c = (handleSelect i (fst c), snd c)"
| "dispatch (NewNote now resp) c = handleCreate now resp c"
| "dispatch (Typed name val now) c = (handleChange name val now (fst c), snd c)"
| "dispatch (Submitted now resp) c = handleSave now resp c"
| "dispatch (DeleteClicked resp) c = handleDelete resp c"

fun run :: "event list \<Rightarrow> state \<times> effects \<Rightarrow> state \<times> effects" where
  "run [] c = c"
| "run (e # es) c = run es (dispatch e c)"

text \<open>
  The form has two inputs wired to \<open>handleChange\<close>, named \<open>title\<close> and \<open>content\<close>. The
  table \<open>notes\<close> has the columns \<open>id\<close>, \<open>title\<close>, \<open>content\<close>, \<open>created_at\<close> and
  \<open>updated_at\<close>, so a row of a response has no property \<open>updated\<close>.
\<close>

definition rows_of :: "response \<Rightarrow> obj list" where
  "rows_of resp = (case data resp of None \<Rightarrow> [] | Some rows \<Rightarrow> rows)"

fun responses_of :: "event \<Rightarrow> response list" where
  "responses_of (Mounted resp) = [resp]"
| "responses_of (NewNote now resp) = [resp]"
| "responses_of (Submitted now resp) = [resp]"
| "responses_of (DeleteClicked resp) = [resp]"
| "responses_of _ = []"

fun input_name_ok :: "event \<Rightarrow> bool" where
  "input_name_ok (Typed name val now) = (name = ''title'' \<or> name = ''content'')"
| "input_name_ok _ = True"

definition no_updated :: "obj \<Rightarrow> bool" where
  "no_updated ob \<longleftrightarrow> jsget ob ''updated'' = Undefined"

definition ui_event :: "event \<Rightarrow> bool" where
  "ui_event e \<longleftrightarrow>
     input_name_ok e \<and> list_all (\<lambda>resp. list_all no_updated (rows_of resp)) (responses_of e)"

section \<open>The data client\<close>

text \<open>
  The module imported as \<open>./supabaseClient\<close> runs once, when it is loaded. \<open>process.env.X\<close> is a string
  or \<open>undefined\<close>.
\<close>

datatype client = Client jsval jsval

definition createClient :: "jsval \<Rightarrow> jsval \<Rightarrow> client" where
  "createClient url key = Client url key"

definition env_get :: "(string \<rightharpoonup> jsstring) \<Rightarrow> string \<Rightarrow> jsval" where
  "env_get env k = (case env k of None \<Rightarrow> Undefined | Some v \<Rightarrow> Str v)"

definition supabaseUrl :: "(string \<rightharpoonup> jsstring) \<Rightarrow> jsval" where
  "supabaseUrl env = js_or (env_get env ''REACT_APP_SUPABASE_URL'') (env_get env ''SUPABASE_URL'')"

definition supabaseAnonKey :: "(string \<rightharpoonup> jsstring) \<Rightarrow> jsval" where
  "supabaseAnonKey env =
     js_or (env_get env ''REACT_APP_SUPABASE_ANON_KEY'') (env_get env ''SUPABASE_ANON_KEY'')"

definition supabase :: "(string \<rightharpoonup> jsstring) \<Rightarrow> js_error + client" where
  "supabase env =
     (if \<not> truthy (supabaseUrl env) \<or> \<not> truthy (supabaseAnonKey env)
      then Inl (Error ''Supabase credentials are not set. Please check SUPABASE_URL and SUPABASE_ANON_KEY env variables.'')
      else Inr (createClient (supabaseUrl env) (supabaseAnonKey env)))"

text \<open>A configuration value is missing or empty.\<close>

definition unset :: "(string \<rightharpoonup> jsstring) \<Rightarrow> string \<Rightarrow> bool" where
  "unset env k \<longleftrightarrow> env k = None \<or> env k = Some []"

section \<open>An invariant and sample data\<close>

text \<open>No note of the list and no edit buffer has a property \<open>updated\<close>.\<close>

definition no_updated_state :: "state \<Rightarrow> bool" where
  "no_updated_state s \<longleftrightarrow>
     list_all no_updated (notes_list s) \<and>
     (case editingNote s of None \<Rightarrow> True | Some en \<Rightarrow> no_updated en)"

text \<open>Two stored notes, an edited copy of the first, what the store returns for it, a blank note.\<close>

definition note_A :: obj where
  "note_A = [(''id'', Num 1), (''title'', Str (ustr ''Alpha'')), (''content'', Str []),
             (''created_at'', Str (ustr ''t0'')), (''updated_at'', Str (ustr ''t0''))]"

definition note_B :: obj where
  "note_B = [(''id'', Num 2), (''title'', Str (ustr ''Beta'')), (''content'', Str (ustr ''b'')),
             (''created_at'', Str (ustr ''t1'')), (''updated_at'', Str (ustr ''t1''))]"

definition note_A_edited :: obj where
  "note_A_edited = [(''id'', Num 1), (''title'', Str (ustr '' Hello  '')), (''content'', Str []),
             (''created_at'', Str (ustr ''t0'')), (''updated_at'', Str (ustr ''t2''))]"

definition note_A_saved :: obj where
  "note_A_saved = [(''id'', Num 1), (''title'', Str (ustr ''Hello'')), (''content'', Str []),
             (''created_at'', Str (ustr ''t0'')), (''updated_at'', Str (ustr ''t3''))]"

definition note_new :: obj where
  "note_new = [(''id'', Num 3), (''title'', Str []), (''content'', Str []),
             (''created_at'', Str (ustr ''t4'')), (''updated_at'', Str (ustr ''t4''))]"

definition resp_rows :: "obj list \<Rightarrow> response" where
  "resp_rows rows = \<lparr>data = Some rows, error = None\<rparr>"

definition resp_done :: response where
  "resp_done = \<lparr>data = None, error = None\<rparr>"

definition resp_failed :: response where
  "resp_failed = \<lparr>data = None, error = Some (ustr ''offline'')\<rparr>"

definition fx0 :: effects where
  "fx0 = \<lparr>requests = [], alerts = [], uncaught = []\<rparr>"

definition state_A :: state where
  "state_A = \<lparr>notes_list = [note_B, note_A], selectedId = Num 1, editingNote = Some note_A,
               loading = False, saving = False\<rparr>"

definition state_E :: state where
  "state_E = \<lparr>notes_list = [note_B, note_A], selectedId = Num 1,
               editingNote = Some note_A_edited, loading = False, saving = False\<rparr>"

definition env_ok :: "string \<rightharpoonup> jsstring" where
  "env_ok = [''REACT_APP_SUPABASE_URL'' \<mapsto> ustr ''u'', ''SUPABASE_ANON_KEY'' \<mapsto> ustr ''k'']"

definition env_nokey :: "string \<rightharpoonup> jsstring" where
  "env_nokey = [''SUPABASE_URL'' \<mapsto> ustr ''u'', ''SUPABASE_ANON_KEY'' \<mapsto> []]"

section \<open>Properties\<close>

subsection \<open>Objects, lists and trimming\<close>

lemma jsget_update:
  "jsget (AList.update k v ob) k' = (if k' = k then v else jsget ob k')"
  by (simp add: jsget_def update_conv')

lemma jsget_Nil: "jsget [] k = Undefined"
  by (simp add: jsget_def)

lemma filter_removes_one:
  assumes "distinct (map f xs)" and "i \<in> set (map f xs)"
  shows "\<exists>ys n zs. xs = ys @ n # zs \<and> f n = i \<and> filter (\<lambda>x. f x \<noteq> i) xs = ys @ zs"
proof -
  from assms(2) obtain n where n: "n \<in> set xs" "f n = i" by auto
  then obtain ys zs where xs: "xs = ys @ n # zs" by (auto simp: in_set_conv_decomp)
  from assms(1) xs n(2) have "f x \<noteq> i" if "x \<in> set ys \<union> set zs" for x
    using that by (auto simp: image_iff)
  then have "filter (\<lambda>x. f x \<noteq> i) ys = ys" "filter (\<lambda>x. f x \<noteq> i) zs = zs"
    by (simp_all add: filter_id_conv)
  then have "filter (\<lambda>x. f x \<noteq> i) xs = ys @ zs"
    using xs n(2) by simp
  with xs n(2) show ?thesis by blast
qed

lemma find_distinct:
  assumes "distinct (map f xs)" and "b \<in> set xs"
  shows "find (\<lambda>n. f n = f b) xs = Some b"
  using assms by (induction xs) (auto simp: image_iff)

lemma rev_dropWhile_rev:
  "ys = rev (dropWhile P (rev ys)) @ rev (takeWhile P (rev ys))"
proof -
  have "rev (rev ys) = rev (takeWhile P (rev ys) @ dropWhile P (rev ys))"
    by (simp only: takeWhile_dropWhile_id)
  then show ?thesis by (simp only: rev_append rev_rev_ident)
qed

text \<open>What \<open>trim\<close> removes is white space, at both ends.\<close>

lemma trim_decomp:
  "\<exists>a b. s = a @ trim s @ b \<and> list_all js_whitespace a \<and> list_all js_whitespace b"
proof -
  define ys where "ys = dropWhile js_whitespace s"
  have ys: "ys = trim s @ rev (takeWhile js_whitespace (rev ys))"
    unfolding trim_def ys_def by (rule rev_dropWhile_rev)
  have "s = takeWhile js_whitespace s @ ys"
    by (simp add: ys_def)
  with ys have "s = takeWhile js_whitespace s @ trim s @ rev (takeWhile js_whitespace (rev ys))"
    by simp
  moreover have "list_all js_whitespace (takeWhile js_whitespace s)"
    by (simp add: list_all_iff) (meson set_takeWhileD)
  moreover have "list_all js_whitespace (rev (takeWhile js_whitespace (rev ys)))"
    by (simp add: list_all_iff) (meson set_takeWhileD)
  ultimately show ?thesis by blast
qed

text \<open>What \<open>trim\<close> leaves neither starts nor ends with white space.\<close>

lemma trim_ends:
  assumes "trim s \<noteq> []"
  shows "\<not> js_whitespace (hd (trim s)) \<and> \<not> js_whitespace (last (trim s))"
proof -
  define ys where "ys = dropWhile js_whitespace s"
  define zs where "zs = dropWhile js_whitespace (rev ys)"
  have t: "trim s = rev zs" by (simp add: trim_def ys_def zs_def)
  with assms have zs: "zs \<noteq> []" by simp
  then have "\<not> js_whitespace (hd zs)"
    unfolding zs_def by (rule hd_dropWhile)
  then have l: "\<not> js_whitespace (last (trim s))"
    using zs t by (simp add: last_rev)
  have ys: "ys = rev zs @ rev (takeWhile js_whitespace (rev ys))"
    unfolding zs_def by (rule rev_dropWhile_rev)
  with zs have "ys \<noteq> []" by auto
  then have "\<not> js_whitespace (hd ys)"
    unfolding ys_def by (rule hd_dropWhile)
  moreover have "hd ys = hd (rev zs)"
    using ys zs by (metis hd_append2 rev_is_Nil_conv)
  ultimately show ?thesis using l t by simp
qed

lemma ustr_Hello: "trim (ustr '' Hello  '') = ustr ''Hello''"
  by (simp add: trim_def js_whitespace_def ustr_def)

subsection \<open>The handlers, case by case\<close>

lemma handleCreate_failed:
  "error resp = Some msg \<Longrightarrow> fst (handleCreate now resp (s, fx)) = s\<lparr>saving := False\<rparr>"
  by (simp add: handleCreate_def handleCreate_pending_def createNote_def)

lemma handleDelete_failed:
  "error resp = Some msg \<Longrightarrow>
   fst (handleDelete resp (s, fx)) = (if truthy (selectedId s) then s\<lparr>saving := False\<rparr> else s)"
  by (simp add: handleDelete_def handleDelete_pending_def deleteNote_def)

lemma handleDelete_no_call:
  "\<not> truthy (selectedId s) \<Longrightarrow> handleDelete resp (s, fx) = (s, fx)"
  by (simp add: handleDelete_def)

text \<open>A buffer whose title or content is not a string: the handler stops at the \<open>TypeError\<close>.\<close>

lemma handleSave_throws:
  assumes "editingNote s = Some en"
    and "js_trim (jsget en ''title'') = Inl e \<or>
         (\<exists>t. js_trim (jsget en ''title'') = Inr t) \<and> js_trim (jsget en ''content'') = Inl e"
  shows "handleSave now resp (s, fx) = (s\<lparr>saving := True\<rparr>, throw e fx)"
  using assms by (auto simp: handleSave_def handleSave_pending_def)

lemma handleSave_calls:
  assumes "editingNote s = Some en"
    and "js_trim (jsget en ''title'') = Inr t" and "js_trim (jsget en ''content'') = Inr c"
  shows "handleSave now resp (s, fx) =
    (let trimmed = AList.update ''content'' c (AList.update ''title'' t en);
         (updated, fx1) = updateNote now resp trimmed fx;
         s2 = s\<lparr>saving := False\<rparr>
     in case updated of
          None \<Rightarrow> (s2, fx1)
        | Some u \<Rightarrow>
            (s2\<lparr>notes_list :=
                  map (\<lambda>n. if jsget n ''id'' = jsget en ''id'' then u else n) (notes_list s),
                editingNote := Some u\<rparr>, fx1))"
  using assms
  by (simp add: handleSave_def handleSave_pending_def jsget_update Let_def
      split: prod.splits option.splits)

lemma handleSave_failed:
  assumes "error resp = Some msg"
    and "requests (snd (handleSave now resp (s, fx))) \<noteq> requests fx"
  shows "fst (handleSave now resp (s, fx)) = s\<lparr>saving := False\<rparr>"
proof (cases "editingNote s")
  case None
  with assms(2) show ?thesis by (simp add: handleSave_def)
next
  case (Some en)
  show ?thesis
  proof (cases "js_trim (jsget en ''title'')")
    case (Inl e)
    with Some assms(2) show ?thesis
      by (simp add: handleSave_throws throw_def)
  next
    case t: (Inr t)
    show ?thesis
    proof (cases "js_trim (jsget en ''content'')")
      case (Inl e)
      with Some t assms(2) show ?thesis
        by (simp add: handleSave_throws throw_def)
    next
      case (Inr c)
      with Some t assms(1) show ?thesis
        by (simp add: handleSave_calls updateNote_def Let_def)
    qed
  qed
qed

lemma run_append: "run (es @ fs) c = run fs (run es c)"
  by (induction es arbitrary: c) simp_all

text \<open>Typing changes the edit buffer and nothing else.\<close>

lemma run_typed:
  "\<exists>eb. run (map (\<lambda>(name, val, now). Typed name val now) chs) (s, fx) =
          (s\<lparr>editingNote := eb\<rparr>, fx)"
proof (induction chs arbitrary: s)
  case Nil
  have "s = s\<lparr>editingNote := editingNote s\<rparr>" by simp
  then show ?case by (metis list.simps(8) run.simps(1))
next
  case (Cons ch chs)
  obtain name val now where ch: "ch = (name, val, now)" by (cases ch)
  from Cons [of "handleChange name val now s"] show ?case
    by (auto simp: ch handleChange_def)
qed

subsection \<open>No handler introduces a property \<open>updated\<close>\<close>

lemma no_updated_init: "no_updated_state App_init"
  by (simp add: no_updated_state_def App_init_def)

lemma no_updated_first_row:
  "list_all no_updated (rows_of resp) \<Longrightarrow> first_row (data resp) = Some u \<Longrightarrow> no_updated u"
  by (auto simp: rows_of_def first_row_def split: option.splits list.splits)

lemma loadNotes_no_updated:
  assumes "list_all no_updated (rows_of resp)" and "no_updated_state (fst c)"
  shows "no_updated_state (fst (loadNotes resp c))"
  using assms
  by (cases c; cases "error resp")
    (simp_all add: loadNotes_def loadNotes_pending_def no_updated_state_def rows_of_def)

lemma handleSelect_no_updated:
  assumes "no_updated_state s"
  shows "no_updated_state (handleSelect i s)"
proof (cases "find (\<lambda>n. jsget n ''id'' = i) (notes_list s)")
  case None
  with assms show ?thesis by (simp add: handleSelect_def no_updated_state_def)
next
  case (Some n)
  then have "n \<in> set (notes_list s)" by (auto simp: find_Some_iff)
  with assms Some show ?thesis
    by (simp add: handleSelect_def no_updated_state_def list_all_iff)
qed

lemma handleCreate_no_updated:
  assumes "list_all no_updated (rows_of resp)" and "no_updated_state (fst c)"
  shows "no_updated_state (fst (handleCreate now resp c))"
proof -
  obtain s fx where c: "c = (s, fx)" by (cases c)
  obtain created fx1 where cn: "createNote now resp fx = (created, fx1)"
    by (cases "createNote now resp fx")
  show ?thesis
  proof (cases created)
    case None
    with assms(2) show ?thesis
      by (simp add: c cn handleCreate_def handleCreate_pending_def no_updated_state_def)
  next
    case (Some n)
    with cn have "first_row (data resp) = Some n"
      by (cases "error resp") (simp_all add: createNote_def)
    with assms(1) have "no_updated n" by (rule no_updated_first_row)
    with assms(2) Some show ?thesis
      by (simp add: c cn handleCreate_def handleCreate_pending_def no_updated_state_def)
  qed
qed

lemma handleChange_no_updated:
  assumes "name = ''title'' \<or> name = ''content''" and "no_updated_state s"
  shows "no_updated_state (handleChange name val now s)"
  using assms
  by (auto simp: handleChange_def no_updated_state_def no_updated_def jsget_update
      jsget_Nil split: option.splits)

lemma handleSave_no_updated:
  assumes "list_all no_updated (rows_of resp)" and "no_updated_state (fst c)"
  shows "no_updated_state (fst (handleSave now resp c))"
proof -
  obtain s fx where c: "c = (s, fx)" by (cases c)
  show ?thesis
  proof (cases "editingNote s")
    case None
    with assms(2) c show ?thesis by (simp add: handleSave_def)
  next
    case (Some en)
    show ?thesis
    proof (cases "js_trim (jsget en ''title'')")
      case (Inl e)
      with Some assms(2) c show ?thesis
        by (simp add: handleSave_def handleSave_pending_def no_updated_state_def)
    next
      case t: (Inr t)
      show ?thesis
      proof (cases "js_trim (jsget en ''content'')")
        case (Inl e)
        with Some t assms(2) c show ?thesis
          by (simp add: handleSave_def handleSave_pending_def no_updated_state_def)
      next
        case (Inr cn)
        note calls = handleSave_calls [OF Some t Inr, of now resp fx]
        obtain updated fx1 where un:
          "updateNote now resp (AList.update ''content'' cn (AList.update ''title'' t en)) fx
           = (updated, fx1)"
          by (cases "updateNote now resp
                (AList.update ''content'' cn (AList.update ''title'' t en)) fx")
        show ?thesis
        proof (cases updated)
          case None
          with assms(2) c Some show ?thesis
            unfolding c calls by (simp add: un no_updated_state_def)
        next
          case u: (Some u)
          with un have "first_row (data resp) = Some u"
            by (cases "error resp") (simp_all add: updateNote_def)
          with assms(1) have "no_updated u" by (rule no_updated_first_row)
          with assms(2) c Some u show ?thesis
            unfolding c calls
            by (auto simp: un no_updated_state_def list_all_iff)
        qed
      qed
    qed
  qed
qed

lemma handleDelete_no_updated:
  assumes "no_updated_state (fst c)"
  shows "no_updated_state (fst (handleDelete resp c))"
  using assms
  by (cases c; cases "error resp")
    (simp_all add: handleDelete_def handleDelete_pending_def deleteNote_def
      no_updated_state_def list_all_iff)

lemma dispatch_no_updated:
  assumes "ui_event e" and "no_updated_state (fst c)"
  shows "no_updated_state (fst (dispatch e c))"
  using assms
  by (cases e)
    (simp_all add: ui_event_def loadNotes_no_updated handleSelect_no_updated
      handleCreate_no_updated handleChange_no_updated handleSave_no_updated
      handleDelete_no_updated)

lemma run_no_updated:
  "list_all ui_event es \<Longrightarrow> no_updated_state (fst c) \<Longrightarrow> no_updated_state (fst (run es c))"
  by (induction es arbitrary: c) (simp_all add: dispatch_no_updated)

lemma no_updated_not_shown: "no_updated_state s \<Longrightarrow> last_updated_shown s = None"
  by (auto simp: no_updated_state_def last_updated_shown_def no_updated_def
      split: option.splits)

subsection \<open>Configuration values\<close>

lemma truthy_env_get: "truthy (env_get env k) \<longleftrightarrow> \<not> unset env k"
  by (cases "env k") (simp_all add: env_get_def unset_def)

lemma truthy_js_or: "truthy (js_or a b) \<longleftrightarrow> truthy a \<or> truthy b"
  by (simp add: js_or_def)

lemma js_or_env_Str:
  assumes "truthy (js_or (env_get env a) (env_get env b))"
  shows "\<exists>u. u \<noteq> [] \<and> js_or (env_get env a) (env_get env b) = Str u
             \<and> (env a = Some u \<or> env b = Some u)"
  using assms
  by (cases "env a"; cases "env b") (auto simp: js_or_def env_get_def)

subsection \<open>Sample data\<close>

lemma sample_ids:
  "jsget note_A ''id'' = Num 1" "jsget note_B ''id'' = Num 2"
  "jsget note_A_edited ''id'' = Num 1" "jsget note_new ''id'' = Num 3"
  by (simp_all add: note_A_def note_B_def note_A_edited_def note_new_def jsget_def)

lemma sample_no_updated: "no_updated note_A" "no_updated note_B"
  by (simp_all add: no_updated_def note_A_def note_B_def jsget_def)

section \<open>The properties of the specification\<close>

text \<open>
  C1. A Create whose query succeeds and returns a record: the one query issued inserts one
  row with empty title, empty content and \<open>created_at\<close> equal to \<open>updated_at\<close>, both the
  same clock reading; the returned record is put in front of the note list, its id becomes
  the selection and the record becomes the edit buffer.
\<close>

theorem handleCreate_success:
  assumes "error resp = None" and "data resp = Some (n # rest)"
  shows "(\<exists>row. requests (snd (handleCreate now resp (s, fx))) =
                 requests fx @ [Insert_select [row]]
             \<and> map fst row = [''title'', ''content'', ''created_at'', ''updated_at'']
             \<and> jsget row ''title'' = Str [] \<and> jsget row ''content'' = Str []
             \<and> jsget row ''created_at'' = Str now
             \<and> jsget row ''updated_at'' = jsget row ''created_at'')
    \<and> fst (handleCreate now resp (s, fx)) =
        s\<lparr>saving := False, notes_list := n # notes_list s, selectedId := jsget n ''id'',
          editingNote := Some n\<rparr>"
  using assms
  by (simp add: handleCreate_def handleCreate_pending_def createNote_def issue_def
      first_row_def jsget_def)

theorem handleCreate_success_witness:
  "error (resp_rows [note_new]) = None \<and> data (resp_rows [note_new]) = Some [note_new]
   \<and> fst (handleCreate (ustr ''t4'') (resp_rows [note_new]) (state_A, fx0)) =
       \<lparr>notes_list = [note_new, note_B, note_A], selectedId = Num 3,
        editingNote = Some note_new, loading = False, saving = False\<rparr>"
proof -
  have h: "error (resp_rows [note_new]) = None" "data (resp_rows [note_new]) = Some [note_new]"
    by (simp_all add: resp_rows_def)
  from handleCreate_success [OF h, of "ustr ''t4''" state_A fx0] h
  show ?thesis by (simp add: state_A_def sample_ids)
qed

text \<open>
  C2. The ids of the note list are unique, the selected id is truthy and is the id of a
  note of the list, and the delete query succeeds: the list loses exactly that one entry,
  the others stay in their order, and the selection and the edit buffer become empty.
\<close>

theorem handleDelete_success:
  assumes "distinct (map (\<lambda>n. jsget n ''id'') (notes_list s))"
    and "selectedId s \<in> set (map (\<lambda>n. jsget n ''id'') (notes_list s))"
    and "truthy (selectedId s)"
    and "error resp = None"
  shows "(\<exists>ys n zs. notes_list s = ys @ n # zs \<and> jsget n ''id'' = selectedId s
            \<and> notes_list (fst (handleDelete resp (s, fx))) = ys @ zs)
    \<and> length (notes_list (fst (handleDelete resp (s, fx)))) + 1 = length (notes_list s)
    \<and> selectedId (fst (handleDelete resp (s, fx))) = Null
    \<and> editingNote (fst (handleDelete resp (s, fx))) = None
    \<and> saving (fst (handleDelete resp (s, fx))) = False
    \<and> requests (snd (handleDelete resp (s, fx))) = requests fx @ [Delete_eq ''id'' (selectedId s)]"
proof -
  have st: "fst (handleDelete resp (s, fx)) =
      s\<lparr>saving := False,
        notes_list := filter (\<lambda>n. jsget n ''id'' \<noteq> selectedId s) (notes_list s),
        editingNote := None, selectedId := Null\<rparr>"
    using assms(3,4) by (simp add: handleDelete_def handleDelete_pending_def deleteNote_def)
  have rq: "requests (snd (handleDelete resp (s, fx))) =
      requests fx @ [Delete_eq ''id'' (selectedId s)]"
    using assms(3,4)
    by (simp add: handleDelete_def handleDelete_pending_def deleteNote_def issue_def)
  from filter_removes_one [OF assms(1,2)] obtain ys n zs where
    "notes_list s = ys @ n # zs" "jsget n ''id'' = selectedId s"
    "filter (\<lambda>n. jsget n ''id'' \<noteq> selectedId s) (notes_list s) = ys @ zs"
    by blast
  with st rq show ?thesis by auto
qed

theorem handleDelete_success_witness:
  "distinct (map (\<lambda>n. jsget n ''id'') (notes_list state_A))
   \<and> selectedId state_A \<in> set (map (\<lambda>n. jsget n ''id'') (notes_list state_A))
   \<and> truthy (selectedId state_A) \<and> error resp_done = None
   \<and> notes_list (fst (handleDelete resp_done (state_A, fx0))) = [note_B]
   \<and> selectedId (fst (handleDelete resp_done (state_A, fx0))) = Null
   \<and> editingNote (fst (handleDelete resp_done (state_A, fx0))) = None
   \<and> requests (snd (handleDelete resp_done (state_A, fx0))) = [Delete_eq ''id'' (Num 1)]"
proof -
  have d: "distinct (map (\<lambda>n. jsget n ''id'') (notes_list state_A))"
    by (simp add: state_A_def sample_ids)
  have m: "selectedId state_A \<in> set (map (\<lambda>n. jsget n ''id'') (notes_list state_A))"
    by (simp add: state_A_def sample_ids)
  have t: "truthy (selectedId state_A)" by (simp add: state_A_def)
  have e: "error resp_done = None" by (simp add: resp_done_def)
  have n: "notes_list (fst (handleDelete resp_done (state_A, fx0))) = [note_B]"
    by (simp add: handleDelete_def handleDelete_pending_def deleteNote_def state_A_def
        resp_done_def sample_ids)
  from handleDelete_success [OF d m t e, of fx0] d m t e n
  show ?thesis by (simp add: state_A_def fx0_def)
qed

text \<open>
  C3. A write handler (Create, Save, Delete) that issues its query and meets an error
  leaves the state as it was but for the saving flag: the flag is true while the query is
  pending and false afterwards, so list, selection and edit buffer are unchanged.
\<close>

theorem failed_write_state:
  assumes "error resp = Some msg"
  shows "fst (handleCreate now resp (s, fx)) = s\<lparr>saving := False\<rparr>
       \<and> handleCreate_pending s = s\<lparr>saving := True\<rparr>
    \<and> (requests (snd (handleSave now resp (s, fx))) \<noteq> requests fx \<longrightarrow>
         fst (handleSave now resp (s, fx)) = s\<lparr>saving := False\<rparr>
         \<and> handleSave_pending s = s\<lparr>saving := True\<rparr>)
    \<and> (requests (snd (handleDelete resp (s, fx))) \<noteq> requests fx \<longrightarrow>
         fst (handleDelete resp (s, fx)) = s\<lparr>saving := False\<rparr>
         \<and> handleDelete_pending s = s\<lparr>saving := True\<rparr>)"
proof -
  have "requests (snd (handleDelete resp (s, fx))) \<noteq> requests fx \<Longrightarrow> truthy (selectedId s)"
    by (cases "truthy (selectedId s)") (simp_all add: handleDelete_no_call)
  then have "requests (snd (handleDelete resp (s, fx))) \<noteq> requests fx \<Longrightarrow>
      fst (handleDelete resp (s, fx)) = s\<lparr>saving := False\<rparr>"
    by (simp add: handleDelete_failed [OF assms])
  then show ?thesis
    using handleCreate_failed [OF assms, of now s fx] handleSave_failed [OF assms, of now s fx]
    by (simp add: handleCreate_pending_def handleSave_pending_def handleDelete_pending_def)
qed

theorem failed_write_state_witness:
  "error resp_failed = Some (ustr ''offline'')
   \<and> fst (handleCreate (ustr ''t3'') resp_failed (state_E, fx0)) = state_E
   \<and> requests (snd (handleSave (ustr ''t3'') resp_failed (state_E, fx0))) \<noteq> requests fx0
   \<and> fst (handleSave (ustr ''t3'') resp_failed (state_E, fx0)) = state_E
   \<and> requests (snd (handleDelete resp_failed (state_E, fx0))) \<noteq> requests fx0
   \<and> fst (handleDelete resp_failed (state_E, fx0)) = state_E
   \<and> saving (handleSave_pending state_E)"
proof -
  have e: "error resp_failed = Some (ustr ''offline'')" by (simp add: resp_failed_def)
  have en: "editingNote state_E = Some note_A_edited" by (simp add: state_E_def)
  have tr: "js_trim (jsget note_A_edited ''title'') = Inr (Str (trim (ustr '' Hello  '')))"
    "js_trim (jsget note_A_edited ''content'') = Inr (Str (trim []))"
    by (simp_all add: note_A_edited_def jsget_def js_trim_def)
  have sv: "requests (snd (handleSave (ustr ''t3'') resp_failed (state_E, fx0))) \<noteq> requests fx0"
    by (simp add: handleSave_calls [OF en tr] updateNote_def issue_def alert_def
        resp_failed_def fx0_def Let_def)
  have dl: "requests (snd (handleDelete resp_failed (state_E, fx0))) \<noteq> requests fx0"
    by (simp add: handleDelete_def handleDelete_pending_def deleteNote_def issue_def alert_def
        resp_failed_def fx0_def state_E_def)
  have s: "state_E\<lparr>saving := False\<rparr> = state_E" by (simp add: state_E_def)
  from failed_write_state [OF e, of "ustr ''t3''" state_E fx0] e sv dl
  show ?thesis by (simp add: s)
qed

text \<open>
  C4. The Update operation issues one query: it assigns \<open>title\<close>, \<open>content\<close> and
  \<open>updated_at\<close> (the clock reading) and nothing else, on the rows whose \<open>id\<close> is the note's;
  it assigns neither \<open>id\<close> nor \<open>created_at\<close>.
\<close>

theorem updateNote_payload:
  "\<exists>fields. requests (snd (updateNote now resp nt fx)) =
        requests fx @ [Update_eq_select fields ''id'' (jsget nt ''id'')]
     \<and> map fst fields = [''title'', ''content'', ''updated_at'']
     \<and> jsget fields ''title'' = jsget nt ''title''
     \<and> jsget fields ''content'' = jsget nt ''content''
     \<and> jsget fields ''updated_at'' = Str now
     \<and> jsget fields ''id'' = Undefined
     \<and> jsget fields ''created_at'' = Undefined"
  by (cases "error resp") (simp_all add: updateNote_def issue_def alert_def jsget_def)

text \<open>
  C5. Note B is in the list and the ids are unique: after any changes typed into the edit
  buffer, a click on B gives the state before the changes with B selected and B as the
  edit buffer. The list, the entry of the note selected before included, is as it was,
  and no query was issued.
\<close>

theorem select_discards_edits:
  assumes "B \<in> set (notes_list s)"
    and "distinct (map (\<lambda>n. jsget n ''id'') (notes_list s))"
  shows "run (map (\<lambda>(name, val, now). Typed name val now) chs @ [Clicked (jsget B ''id'')]) (s, fx)
         = (s\<lparr>selectedId := jsget B ''id'', editingNote := Some B\<rparr>, fx)"
proof -
  obtain eb where "run (map (\<lambda>(name, val, now). Typed name val now) chs) (s, fx) =
          (s\<lparr>editingNote := eb\<rparr>, fx)"
    using run_typed by blast
  then show ?thesis
    using find_distinct [OF assms(2,1)]
    by (simp add: run_append handleSelect_def)
qed

theorem select_discards_edits_witness:
  "note_B \<in> set (notes_list state_A)
   \<and> distinct (map (\<lambda>n. jsget n ''id'') (notes_list state_A))
   \<and> run [Typed ''title'' (ustr ''Hello'') (ustr ''t2''), Clicked (Num 2)] (state_A, fx0)
       = (\<lparr>notes_list = [note_B, note_A], selectedId = Num 2, editingNote = Some note_B,
           loading = False, saving = False\<rparr>, fx0)"
proof -
  have B: "note_B \<in> set (notes_list state_A)" by (simp add: state_A_def)
  have d: "distinct (map (\<lambda>n. jsget n ''id'') (notes_list state_A))"
    by (simp add: state_A_def sample_ids)
  from select_discards_edits [OF B d, of "[(''title'', ustr ''Hello'', ustr ''t2'')]" fx0] B d
  show ?thesis by (simp add: sample_ids) (simp add: state_A_def)
qed

text \<open>
  C6. A Save with an edit buffer whose title and content are strings issues one update
  query; the title and the content it carries are the buffer's with the white space at
  both ends removed. When the query succeeds and returns a record, every list entry with
  the buffer's id is replaced by that record, the record becomes the edit buffer, and the
  selection is as before.
\<close>

theorem handleSave_success:
  assumes "editingNote s = Some en"
    and "jsget en ''title'' = Str t" and "jsget en ''content'' = Str c"
  shows "requests (snd (handleSave now resp (s, fx))) =
           requests fx @ [Update_eq_select
             [(''title'', Str (trim t)), (''content'', Str (trim c)), (''updated_at'', Str now)]
             ''id'' (jsget en ''id'')]
    \<and> (\<exists>a b. t = a @ trim t @ b \<and> list_all js_whitespace a \<and> list_all js_whitespace b)
    \<and> (trim t \<noteq> [] \<longrightarrow> \<not> js_whitespace (hd (trim t)) \<and> \<not> js_whitespace (last (trim t)))
    \<and> (\<exists>a b. c = a @ trim c @ b \<and> list_all js_whitespace a \<and> list_all js_whitespace b)
    \<and> (trim c \<noteq> [] \<longrightarrow> \<not> js_whitespace (hd (trim c)) \<and> \<not> js_whitespace (last (trim c)))
    \<and> (error resp = None \<and> data resp = Some (u # rest) \<longrightarrow>
         fst (handleSave now resp (s, fx)) =
           s\<lparr>saving := False,
             notes_list := map (\<lambda>n. if jsget n ''id'' = jsget en ''id'' then u else n) (notes_list s),
             editingNote := Some u\<rparr>)"
proof -
  have tr: "js_trim (jsget en ''title'') = Inr (Str (trim t))"
    "js_trim (jsget en ''content'') = Inr (Str (trim c))"
    using assms(2,3) by (simp_all add: js_trim_def)
  note calls = handleSave_calls [OF assms(1) tr, of now resp fx]
  have rq: "requests (snd (handleSave now resp (s, fx))) =
           requests fx @ [Update_eq_select
             [(''title'', Str (trim t)), (''content'', Str (trim c)), (''updated_at'', Str now)]
             ''id'' (jsget en ''id'')]"
    unfolding calls
    by (cases "error resp"; cases "first_row (data resp)")
      (simp_all add: updateNote_def issue_def alert_def jsget_update Let_def)
  have ok: "fst (handleSave now resp (s, fx)) =
           s\<lparr>saving := False,
             notes_list := map (\<lambda>n. if jsget n ''id'' = jsget en ''id'' then u else n) (notes_list s),
             editingNote := Some u\<rparr>"
    if "error resp = None" "data resp = Some (u # rest)"
    unfolding calls using that by (simp add: updateNote_def first_row_def Let_def)
  from rq ok trim_decomp [of t] trim_decomp [of c] trim_ends [of t] trim_ends [of c]
  show ?thesis by blast
qed

theorem handleSave_success_witness:
  "editingNote state_E = Some note_A_edited
   \<and> jsget note_A_edited ''title'' = Str (ustr '' Hello  '')
   \<and> jsget note_A_edited ''content'' = Str []
   \<and> error (resp_rows [note_A_saved]) = None
   \<and> data (resp_rows [note_A_saved]) = Some [note_A_saved]
   \<and> requests (snd (handleSave (ustr ''t3'') (resp_rows [note_A_saved]) (state_E, fx0))) =
       [Update_eq_select
         [(''title'', Str (ustr ''Hello'')), (''content'', Str []), (''updated_at'', Str (ustr ''t3''))]
         ''id'' (Num 1)]
   \<and> fst (handleSave (ustr ''t3'') (resp_rows [note_A_saved]) (state_E, fx0)) =
       \<lparr>notes_list = [note_B, note_A_saved], selectedId = Num 1,
        editingNote = Some note_A_saved, loading = False, saving = False\<rparr>"
proof -
  have en: "editingNote state_E = Some note_A_edited" by (simp add: state_E_def)
  have t: "jsget note_A_edited ''title'' = Str (ustr '' Hello  '')"
    and c: "jsget note_A_edited ''content'' = Str []"
    by (simp_all add: note_A_edited_def jsget_def)
  have r: "error (resp_rows [note_A_saved]) = None"
    "data (resp_rows [note_A_saved]) = Some [note_A_saved]"
    by (simp_all add: resp_rows_def)
  have tc: "trim [] = []" by (simp add: trim_def)
  from handleSave_success [OF en t c, of "ustr ''t3''" "resp_rows [note_A_saved]" fx0
      note_A_saved "[]"] en t c r
  show ?thesis
    by (simp add: ustr_Hello tc sample_ids) (simp add: state_E_def fx0_def sample_ids)
qed

text \<open>
  C7. The List operation issues one query, for all notes by \<open>updated_at\<close> descending. When
  the query fails, the note list becomes empty, nothing is alerted and nothing is thrown;
  when it succeeds, the note list is the fetched rows in the order the store returned them.
\<close>

theorem loadNotes_result:
  "(error resp \<noteq> None \<longrightarrow> notes_list (fst (loadNotes resp (s, fx))) = [])
   \<and> (error resp = None \<longrightarrow> notes_list (fst (loadNotes resp (s, fx))) = rows_of resp)
   \<and> requests (snd (loadNotes resp (s, fx))) = requests fx @ [Select_order ''updated_at'' False]
   \<and> alerts (snd (loadNotes resp (s, fx))) = alerts fx
   \<and> uncaught (snd (loadNotes resp (s, fx))) = uncaught fx
   \<and> loading (fst (loadNotes resp (s, fx))) = False"
  by (cases "error resp") (simp_all add: loadNotes_def loadNotes_pending_def issue_def rows_of_def)

theorem loadNotes_result_witness:
  "error resp_failed \<noteq> None
   \<and> loadNotes resp_failed (state_A, fx0) =
       (state_A\<lparr>notes_list := []\<rparr>, fx0\<lparr>requests := [Select_order ''updated_at'' False]\<rparr>)
   \<and> error (resp_rows [note_B, note_A]) = None
   \<and> notes_list (fst (loadNotes (resp_rows [note_B, note_A]) (App_init, fx0))) = [note_B, note_A]"
proof -
  have e: "error resp_failed \<noteq> None" "error (resp_rows [note_B, note_A]) = None"
    by (simp_all add: resp_failed_def resp_rows_def)
  have f: "loadNotes resp_failed (state_A, fx0) =
       (state_A\<lparr>notes_list := []\<rparr>, fx0\<lparr>requests := [Select_order ''updated_at'' False]\<rparr>)"
    by (simp add: loadNotes_def loadNotes_pending_def issue_def resp_failed_def state_A_def
        fx0_def)
  from loadNotes_result [of "resp_rows [note_B, note_A]" App_init fx0] e f
  show ?thesis by (simp add: rows_of_def resp_rows_def)
qed

text \<open>
  C8. In a state the component reaches from its initial state, by events of its own
  interface and responses whose rows have no property \<open>updated\<close>: a change of the title or
  the content input puts the clock reading into \<open>updated_at\<close> of the edit buffer, and the
  \<open>Last updated\<close> line, which reads the property \<open>updated\<close>, is shown neither before nor
  after the change.
\<close>

theorem last_updated_never_shown:
  assumes "list_all ui_event es" and "run es (App_init, fx) = (s, fx')"
    and "name = ''title'' \<or> name = ''content''"
  shows "(\<exists>en. editingNote (handleChange name val now s) = Some en
              \<and> jsget en ''updated_at'' = Str now)
    \<and> last_updated_shown (handleChange name val now s) = None
    \<and> last_updated_shown s = None"
proof -
  have "no_updated_state (fst (run es (App_init, fx)))"
    using assms(1) by (rule run_no_updated) (simp add: no_updated_init)
  with assms(2) have s: "no_updated_state s" by simp
  then have "no_updated_state (handleChange name val now s)"
    using assms(3) by (simp add: handleChange_no_updated)
  with s show ?thesis
    by (simp add: no_updated_not_shown) (simp add: handleChange_def jsget_update)
qed

theorem last_updated_never_shown_witness:
  "list_all ui_event [Mounted (resp_rows [note_B, note_A]), Clicked (Num 1)]
   \<and> run [Mounted (resp_rows [note_B, note_A]), Clicked (Num 1)] (App_init, fx0) =
       (state_A, fx0\<lparr>requests := [Select_order ''updated_at'' False]\<rparr>)
   \<and> form_shown state_A
   \<and> editingNote (handleChange ''title'' (ustr ''Hello'') (ustr ''t2'') state_A) =
       Some [(''id'', Num 1), (''title'', Str (ustr ''Hello'')), (''content'', Str []),
             (''created_at'', Str (ustr ''t0'')), (''updated_at'', Str (ustr ''t2''))]
   \<and> last_updated_shown (handleChange ''title'' (ustr ''Hello'') (ustr ''t2'') state_A) = None"
proof -
  have u: "list_all ui_event [Mounted (resp_rows [note_B, note_A]), Clicked (Num 1)]"
    by (simp add: ui_event_def rows_of_def resp_rows_def sample_no_updated)
  have r: "run [Mounted (resp_rows [note_B, note_A]), Clicked (Num 1)] (App_init, fx0) =
       (state_A, fx0\<lparr>requests := [Select_order ''updated_at'' False]\<rparr>)"
    by (simp add: loadNotes_def loadNotes_pending_def issue_def handleSelect_def
        resp_rows_def App_init_def fx0_def state_A_def sample_ids)
  have f: "form_shown state_A" by (simp add: form_shown_def state_A_def)
  have b: "editingNote (handleChange ''title'' (ustr ''Hello'') (ustr ''t2'') state_A) =
       Some [(''id'', Num 1), (''title'', Str (ustr ''Hello'')), (''content'', Str []),
             (''created_at'', Str (ustr ''t0'')), (''updated_at'', Str (ustr ''t2''))]"
    by (simp add: handleChange_def state_A_def note_A_def)
  from last_updated_never_shown [OF u r, of "''title''" "ustr ''Hello''" "ustr ''t2''"] u r f b
  show ?thesis by simp
qed

text \<open>
  C9. Each of the two configuration values is read from two variables, the first that is
  not empty. When the URL or the key is missing or empty under both of its names, loading
  the module throws an error and no client exists; otherwise the client is constructed
  from the two values, and nothing is thrown.
\<close>

theorem supabase_credentials:
  "if (unset env ''REACT_APP_SUPABASE_URL'' \<and> unset env ''SUPABASE_URL'')
      \<or> (unset env ''REACT_APP_SUPABASE_ANON_KEY'' \<and> unset env ''SUPABASE_ANON_KEY'')
   then \<exists>m. supabase env = Inl (Error m)
   else \<exists>u k. supabase env = Inr (Client (Str u) (Str k)) \<and> u \<noteq> [] \<and> k \<noteq> []
          \<and> (env ''REACT_APP_SUPABASE_URL'' = Some u \<or> env ''SUPABASE_URL'' = Some u)
          \<and> (env ''REACT_APP_SUPABASE_ANON_KEY'' = Some k \<or> env ''SUPABASE_ANON_KEY'' = Some k)"
proof (cases "truthy (supabaseUrl env) \<and> truthy (supabaseAnonKey env)")
  case True
  then obtain u k where "u \<noteq> []" "supabaseUrl env = Str u"
      "env ''REACT_APP_SUPABASE_URL'' = Some u \<or> env ''SUPABASE_URL'' = Some u"
      "k \<noteq> []" "supabaseAnonKey env = Str k"
      "env ''REACT_APP_SUPABASE_ANON_KEY'' = Some k \<or> env ''SUPABASE_ANON_KEY'' = Some k"
    unfolding supabaseUrl_def supabaseAnonKey_def
    using js_or_env_Str by meson
  moreover from True have "\<not> ((unset env ''REACT_APP_SUPABASE_URL'' \<and> unset env ''SUPABASE_URL'')
      \<or> (unset env ''REACT_APP_SUPABASE_ANON_KEY'' \<and> unset env ''SUPABASE_ANON_KEY''))"
    by (simp add: supabaseUrl_def supabaseAnonKey_def truthy_js_or truthy_env_get)
  ultimately show ?thesis
    using True by (simp add: supabase_def createClient_def)
next
  case False
  then have "(unset env ''REACT_APP_SUPABASE_URL'' \<and> unset env ''SUPABASE_URL'')
      \<or> (unset env ''REACT_APP_SUPABASE_ANON_KEY'' \<and> unset env ''SUPABASE_ANON_KEY'')"
    by (simp add: supabaseUrl_def supabaseAnonKey_def truthy_js_or truthy_env_get)
  with False show ?thesis by (auto simp: supabase_def)
qed

theorem supabase_credentials_witness:
  "supabase env_ok = Inr (Client (Str (ustr ''u'')) (Str (ustr ''k'')))
   \<and> unset env_nokey ''REACT_APP_SUPABASE_ANON_KEY'' \<and> unset env_nokey ''SUPABASE_ANON_KEY''
   \<and> supabase env_nokey = Inl (Error
       ''Supabase credentials are not set. Please check SUPABASE_URL and SUPABASE_ANON_KEY env variables.'')"
proof -
  have ok: "\<not> unset env_ok ''REACT_APP_SUPABASE_URL''" "\<not> unset env_ok ''SUPABASE_ANON_KEY''"
    "env_ok ''SUPABASE_URL'' = None" "env_ok ''REACT_APP_SUPABASE_ANON_KEY'' = None"
    "env_ok ''REACT_APP_SUPABASE_URL'' = Some (ustr ''u'')"
    "env_ok ''SUPABASE_ANON_KEY'' = Some (ustr ''k'')"
    by (simp_all add: unset_def env_ok_def ustr_def)
  have no: "unset env_nokey ''REACT_APP_SUPABASE_ANON_KEY''" "unset env_nokey ''SUPABASE_ANON_KEY''"
    by (simp_all add: unset_def env_nokey_def)
  have e: "supabase env_nokey = Inl (Error m) \<Longrightarrow> m =
       ''Supabase credentials are not set. Please check SUPABASE_URL and SUPABASE_ANON_KEY env variables.''"
    for m by (simp add: supabase_def split: if_splits)
  from supabase_credentials [of env_ok] supabase_credentials [of env_nokey] ok no e
  show ?thesis by auto
qed

text \<open>
  C10. With an empty edit buffer, Save returns at once: the state is the same, saving flag
  included, and no query, alert or exception is added. With no selection (\<open>null\<close>, or any
  falsy id), Delete returns at once in the same way.
\<close>

theorem noop_guards:
  "(editingNote s = None \<longrightarrow> handleSave now resp (s, fx) = (s, fx))
   \<and> (\<not> truthy (selectedId s) \<longrightarrow> handleDelete resp' (s, fx) = (s, fx))"
  by (simp add: handleSave_def handleDelete_def)

theorem noop_guards_witness:
  "editingNote App_init = None \<and> selectedId App_init = Null
   \<and> handleSave (ustr ''t0'') (resp_rows [note_A]) (App_init, fx0) = (App_init, fx0)
   \<and> handleDelete resp_done (App_init, fx0) = (App_init, fx0)"
proof -
  have h: "editingNote App_init = None" "selectedId App_init = Null"
    by (simp_all add: App_init_def)
  from noop_guards [of App_init "ustr ''t0''" "resp_rows [note_A]" fx0 resp_done] h
  show ?thesis by simp
qed

end
